theory Spec2Isabelle
  imports
    Complex_Main
    "HOL-Library.Sublist"
    "HOL-Library.Char_ord"
    "HOL-Library.List_Lexorder"
    "HOL-Library.Product_Lexorder"
begin

section \<open>Strings and spreadsheet cells\<close>

text \<open>
  A Python \<open>str\<close> is modelled as a \<open>string\<close>, a list of 8-bit characters; the
  functions below treat the ASCII range as Python does and leave every other character
  alone. A spreadsheet cell that holds text is \<open>Some s\<close>; an empty cell, which pandas
  reads as NaN, is \<open>None\<close>. \<open>str(NaN)\<close> is the three letters \<open>nan\<close>.
\<close>

definition py_str :: "string option \<Rightarrow> string" where
  "py_str v = (case v of None \<Rightarrow> ''nan'' | Some s \<Rightarrow> s)"

text \<open>\<open>str.lower()\<close>: the letters \<open>A\<close> .. \<open>Z\<close> (codes 65 .. 90) move up by 32.\<close>

definition lower_char :: "char \<Rightarrow> char" where
  "lower_char c =
     (let n = (of_char c :: nat) in if 65 \<le> n \<and> n \<le> 90 then char_of (n + 32) else c)"

definition lower :: "string \<Rightarrow> string" where
  "lower s = map lower_char s"

text \<open>\<open>w in text\<close> on strings: \<open>w\<close> occurs at some position of \<open>text\<close>.\<close>

fun starts_with :: "string \<Rightarrow> string \<Rightarrow> bool" where
  "starts_with [] t = True"
| "starts_with (a # w) [] = False"
| "starts_with (a # w) (b # t) = (a = b \<and> starts_with w t)"

fun contains :: "string \<Rightarrow> string \<Rightarrow> bool" where
  "contains w [] = (w = [])"
| "contains w (c # t) = (starts_with w (c # t) \<or> contains w t)"

section \<open>Sentiment classification\<close>

datatype sentiment = Positive | Negative | Neutral

text \<open>The keyword lists of \<open>Balloon_Dashboard.py\<close>, lines 26 and 28.\<close>

definition positive_words_balloon :: "string list" where
  "positive_words_balloon =
     [''good'', ''great'', ''excellent'', ''love'', ''happy'', ''nice'', ''perfect'',
      ''clear'', ''easy'', ''Perfectoo'']"

definition negative_words_balloon :: "string list" where
  "negative_words_balloon =
     [''bad'', ''terrible'', ''hate'', ''issue'', ''problem'', ''poor'', ''worst'']"

definition classify_sentiment_balloon :: "string option \<Rightarrow> sentiment" where
  "classify_sentiment_balloon v =
     (let text = lower (py_str v) in
      if list_ex (\<lambda>word. contains word text) positive_words_balloon then Positive
      else if list_ex (\<lambda>word. contains word text) negative_words_balloon then Negative
      else Neutral)"

text \<open>The keyword lists of \<open>pages/In-Detailed Dashboard.py\<close>, lines 47 and 49.\<close>

definition positive_words_detail :: "string list" where
  "positive_words_detail = [''good'', ''great'', ''excellent'', ''love'', ''happy'', ''nice'']"

definition negative_words_detail :: "string list" where
  "negative_words_detail = [''bad'', ''terrible'', ''hate'', ''issue'', ''problem'', ''poor'']"

definition classify_sentiment_detail :: "string option \<Rightarrow> sentiment" where
  "classify_sentiment_detail v =
     (let text = lower (py_str v) in
      if list_ex (\<lambda>word. contains word text) positive_words_detail then Positive
      else if list_ex (\<lambda>word. contains word text) negative_words_detail then Negative
      else Neutral)"

text \<open>
  The balloon page's classifier as the comparison of its positive list without the
  mixed-case entry describes it: the same function over the nine lower-case keywords.
\<close>

definition positive_words_no_perfectoo :: "string list" where
  "positive_words_no_perfectoo =
     [''good'', ''great'', ''excellent'', ''love'', ''happy'', ''nice'', ''perfect'',
      ''clear'', ''easy'']"

definition classify_sentiment_no_perfectoo :: "string option \<Rightarrow> sentiment" where
  "classify_sentiment_no_perfectoo v =
     (let text = lower (py_str v) in
      if list_ex (\<lambda>word. contains word text) positive_words_no_perfectoo then Positive
      else if list_ex (\<lambda>word. contains word text) negative_words_balloon then Negative
      else Neutral)"

section \<open>Version ordering\<close>

text \<open>
  The regular expression \<open>\d+\<close> is read over ASCII: a digit is one of \<open>0\<close> .. \<open>9\<close>
  (codes 48 .. 57). \<open>int(x)\<close> of a run of digits is its decimal value; Python's
  integers are unbounded.
\<close>

definition is_digit :: "char \<Rightarrow> bool" where
  "is_digit c = (let n = (of_char c :: nat) in 48 \<le> n \<and> n \<le> 57)"




text \<open>
  \<open>re.findall(r'\d+', s)\<close>: the matches from left to right, each as long as it can
  be, none overlapping the one before.
\<close>

function findall_digits :: "string \<Rightarrow> string list" where
  "findall_digits s =
     (let rest = dropWhile (\<lambda>c. \<not> is_digit c) s in
      if rest = [] then []
      else takeWhile is_digit rest # findall_digits (dropWhile is_digit rest))"
  by pat_completeness auto
termination
proof (relation "measure length")
  show "wf (measure length)" by simp
next
  fix s rest :: string
  assume r: "rest = dropWhile (\<lambda>c. \<not> is_digit c) s" and ne: "rest \<noteq> []"
  from r ne have "is_digit (hd rest)"
    using hd_dropWhile [of "\<lambda>c. \<not> is_digit c" s] by auto
  with ne have "length (dropWhile is_digit rest) < length rest"
    by (cases rest) (auto simp: le_imp_less_Suc length_dropWhile_le)
  also have "length rest \<le> length s"
    using r by (simp add: length_dropWhile_le)
  finally show "(dropWhile is_digit rest, s) \<in> measure length" by simp
qed

text \<open>
  \<open>re.split(r'(\d+)', s)\<close>: the pattern is a capture group, so the result keeps the
  matches: the text before the first match, the match, the text up to the next one,
  and so on, ending with the text after the last match (empty strings included).
\<close>

function re_split_digits :: "string \<Rightarrow> string list" where
  "re_split_digits s =
     (let before = takeWhile (\<lambda>c. \<not> is_digit c) s;
          rest = dropWhile (\<lambda>c. \<not> is_digit c) s in
      if rest = [] then [before]
      else before # takeWhile is_digit rest # re_split_digits (dropWhile is_digit rest))"
  by pat_completeness auto
termination
proof (relation "measure length")
  show "wf (measure length)" by simp
next
  fix s rest :: string
  assume r: "rest = dropWhile (\<lambda>c. \<not> is_digit c) s" and ne: "rest \<noteq> []"
  from r ne have "is_digit (hd rest)"
    using hd_dropWhile [of "\<lambda>c. \<not> is_digit c" s] by auto
  with ne have "length (dropWhile is_digit rest) < length rest"
    by (cases rest) (auto simp: le_imp_less_Suc length_dropWhile_le)
  also have "length rest \<le> length s"
    using r by (simp add: length_dropWhile_le)
  finally show "(dropWhile is_digit rest, s) \<in> measure length" by simp
qed




text \<open>
  Python compares keys with \<open><\<close>. Two lists compare at the first position where they
  differ (by \<open>==\<close>), and a list that is a proper prefix of the other is the smaller.
  A string and an integer are never equal, and asking which is smaller raises
  \<open>TypeError\<close>. Strings compare character by character, by code.
\<close>

datatype error = TypeError | IndexError



text \<open>
  \<open>sorted(xs, key=version_key)\<close> is stable. On the balloon page the keys are lists of
  integers, which always compare, in the lexicographic order of lists: the stable
  insertion sort \<open>sort_key\<close> gives the result. The list sorted there is
  \<open>df['appVersion'].dropna().unique().tolist()\<close>; \<open>unique\<close> keeps the first of equal
  values and the order of appearance.
\<close>

definition dropna :: "'a option list \<Rightarrow> 'a list" where
  "dropna xs = List.map_filter (\<lambda>x. x) xs"








section \<open>The loaded sheet\<close>

text \<open>
  One row of the spreadsheet, with the columns the two pages read (the column \<open>at\<close> is
  the field \<open>at_ts\<close>). A timestamp is a
  whole number of nanoseconds since the epoch, as pandas keeps it. The balloon page
  parses the two date columns strictly and computes with the timestamps and scores it
  has, so its rows carry a timestamp (\<open>int review\<close>); the In-Detailed page parses
  with \<open>errors='coerce'\<close>, so its rows carry a timestamp or the missing-value marker
  NaT (\<open>int option review\<close>, \<open>None\<close> for NaT). A text cell is \<open>None\<close> when empty.
  Python's floats are modelled as exact rationals: sums, quotients and comparisons are
  those of the numbers, without rounding error and without not-a-number.
\<close>

record 't review =
  at_ts :: 't
  Release_Date :: "int option"
  content :: "string option"
  score :: rat
  appVersion :: "string option"
  Release_Version :: "string option"
  reviewCreatedVersion :: "string option"
  Feature_Description :: "string option"

record 't scored = "'t review" +
  Sentiment :: sentiment

definition day_ns :: int where
  "day_ns = 86400000000000"

section \<open>The balloon page\<close>

text \<open>\<open>load_data\<close>, lines 19-33: every row gets its \<open>Sentiment\<close>.\<close>

definition with_sentiment :: "(string option \<Rightarrow> sentiment) \<Rightarrow> 't review \<Rightarrow> 't scored" where
  "with_sentiment classify r =
     \<lparr>at_ts = at_ts r, Release_Date = Release_Date r, content = content r, score = score r,
      appVersion = appVersion r, Release_Version = Release_Version r,
      reviewCreatedVersion = reviewCreatedVersion r,
      Feature_Description = Feature_Description r,
      Sentiment = classify (content r)\<rparr>"

definition load_data :: "int review list \<Rightarrow> int scored list" where
  "load_data sheet = map (with_sentiment classify_sentiment_balloon) sheet"

text \<open>
  Lines 47-50: the rows of the selected version, or all of them. The selection is a
  label of the version list; \<open>None\<close> stands for the entry \<open>All Versions\<close>.
\<close>

definition version_df :: "string option \<Rightarrow> int scored list \<Rightarrow> int scored list" where
  "version_df selected_version df =
     (case selected_version of
        None \<Rightarrow> df
      | Some v \<Rightarrow> filter (\<lambda>r. appVersion r = Some v) df)"

definition sentiment_df :: "sentiment \<Rightarrow> int scored list \<Rightarrow> int scored list" where
  "sentiment_df sentiment vdf = filter (\<lambda>r. Sentiment r = sentiment) vdf"

text \<open>Lines 57-61.\<close>

definition score_min :: rat where "score_min = 32 / 10"
definition score_max :: rat where "score_max = 5"
definition min_size :: rat where "min_size = 30"
definition max_size :: rat where "max_size = 80"
definition pixel_to_data_ratio :: rat where "pixel_to_data_ratio = 2 / 600"

text \<open>
  \<open>round(x, 2)\<close>: the nearest multiple of a hundredth, a tie going to the even one.
\<close>

definition round_half_even :: "rat \<Rightarrow> int" where
  "round_half_even x =
     (let f = \<lfloor>x\<rfloor>; d = x - of_int f in
      if d < 1 / 2 then f else if 1 / 2 < d then f + 1 else if even f then f else f + 1)"

definition py_round2 :: "rat \<Rightarrow> rat" where
  "py_round2 x = of_int (round_half_even (100 * x)) / 100"

definition mean :: "rat list \<Rightarrow> rat" where
  "mean xs = sum_list xs / of_nat (length xs)"

text \<open>
  Lines 66-82, for one sentiment: the numbers the three traces are drawn from. An
  empty bucket is skipped (\<open>continue\<close>), which is \<open>None\<close>.
\<close>

record balloon =
  reviews :: nat
  avg_score :: rat
  duration_days :: int
  duration_scaled :: rat
  circle_pixel_radius :: rat
  circle_data_radius :: rat
  stick_visible_height :: rat
  circle_y :: rat

definition balloon_of :: "int scored list \<Rightarrow> balloon option" where
  "balloon_of sdf =
     (case map at_ts sdf of
        [] \<Rightarrow> None
      | t # ts \<Rightarrow>
          (let n = length sdf;
               avg = py_round2 (mean (map score sdf));
               days = (fold max ts t - fold min ts t) div day_ns;
               scaled = max (of_int days / 15) (15 / 10);
               score_norm = (avg - score_min) / (score_max - score_min);
               score_norm = max 0 (min score_norm 1);
               pixel_radius = min_size + score_norm * (max_size - min_size);
               data_radius = (pixel_radius / 2) * pixel_to_data_ratio;
               stick = max (scaled - data_radius) (5 / 10)
           in Some \<lparr>reviews = n, avg_score = avg, duration_days = days,
                     duration_scaled = scaled, circle_pixel_radius = pixel_radius,
                     circle_data_radius = data_radius, stick_visible_height = stick,
                     circle_y = stick + data_radius\<rparr>))"

text \<open>
  A row with its timestamp and score and every text cell empty, for sample sheets.
\<close>

definition bare_review :: "'t \<Rightarrow> rat \<Rightarrow> 't review" where
  "bare_review t s =
     \<lparr>at_ts = t, Release_Date = None, content = None, score = s, appVersion = None,
      Release_Version = None, reviewCreatedVersion = None, Feature_Description = None\<rparr>"

definition sample_sheet :: "('t \<times> rat) list \<Rightarrow> 't review list" where
  "sample_sheet xs = map (\<lambda>(t, s). bare_review t s) xs"

text \<open>
  The bucket the balloon page draws for the sentiment Neutral when all versions are
  selected.
\<close>

definition neutral_bucket :: "int review list \<Rightarrow> int scored list" where
  "neutral_bucket sheet = sentiment_df Neutral (version_df None (load_data sheet))"

section \<open>Feature descriptions\<close>

text \<open>
  \<open>str.strip()\<close> removes white space from both ends; in the ASCII range the white
  space characters are the codes 9 .. 13 and 28 .. 32.
\<close>

definition is_space :: "char \<Rightarrow> bool" where
  "is_space c = (let n = (of_char c :: nat) in (9 \<le> n \<and> n \<le> 13) \<or> (28 \<le> n \<and> n \<le> 32))"

definition strip :: "string \<Rightarrow> string" where
  "strip s = rev (dropWhile is_space (rev (dropWhile is_space s)))"

text \<open>
  \<open>entry.split('#')\<close>: the pieces between the separators, empty pieces included;
  \<open>cur\<close> holds the piece being read, backwards.
\<close>

fun split_from :: "string \<Rightarrow> string \<Rightarrow> string list" where
  "split_from cur [] = [rev cur]"
| "split_from cur (c # s) =
     (if c = CHR ''#'' then rev cur # split_from [] s else split_from (c # cur) s)"

definition split_hash :: "string \<Rightarrow> string list" where
  "split_hash entry = split_from [] entry"

text \<open>Lines 139-147 of \<open>Balloon_Dashboard.py\<close>.\<close>

definition feature_raw :: "int scored list \<Rightarrow> string list" where
  "feature_raw vdf = dropna (map Feature_Description vdf)"

definition features :: "string \<Rightarrow> string list" where
  "features entry = map strip (filter (\<lambda>desc. strip desc \<noteq> []) (split_hash entry))"

definition feature_set :: "string list \<Rightarrow> string set" where
  "feature_set raw = fold (\<lambda>entry acc. acc \<union> set (features entry)) raw {}"

definition feature_list :: "string list \<Rightarrow> string list" where
  "feature_list raw = sorted_list_of_set (feature_set raw)"

text \<open>
  The inverse of the split, to speak of the fragments of an entry: the fragments with
  a separator between neighbours.
\<close>

fun join_hash :: "string list \<Rightarrow> string" where
  "join_hash [] = []"
| "join_hash [f] = f"
| "join_hash (f # g # fs) = f @ CHR ''#'' # join_hash (g # fs)"

section \<open>The In-Detailed page\<close>

text \<open>
  Lines 36-39: the rows whose timestamp lies between the two ends of the date range,
  both included. \<open>date_range\<close> holds the values of the date widget as
  \<open>pd.to_datetime\<close> reads them, each a timestamp or NaT. A comparison with NaT on
  either side is false. Reading an entry the widget did not give raises \<open>IndexError\<close>.
\<close>

definition ts_le :: "int option \<Rightarrow> int option \<Rightarrow> bool" where
  "ts_le a b = (case (a, b) of (Some x, Some y) \<Rightarrow> x \<le> y | _ \<Rightarrow> False)"

definition date_filtered ::
  "int option list \<Rightarrow> int option review list \<Rightarrow> error + int option review list" where
  "date_filtered date_range df =
     (case date_range of
        lo # hi # others \<Rightarrow> Inr (filter (\<lambda>r. ts_le lo (at_ts r) \<and> ts_le (at_ts r) hi) df)
      | _ \<Rightarrow> Inl IndexError)"

text \<open>
  Lines 41-42 and 54: a non-empty selection of release versions keeps the rows of
  those versions (\<open>isin\<close>; a row without a release version is in none), and every
  row that is left gets its \<open>Sentiment\<close>.
\<close>

definition isin :: "string option \<Rightarrow> string list \<Rightarrow> bool" where
  "isin v vs = (case v of None \<Rightarrow> False | Some x \<Rightarrow> x \<in> set vs)"

definition filtered_df ::
  "int option list \<Rightarrow> string list \<Rightarrow> int option review list \<Rightarrow> error + int option scored list" where
  "filtered_df date_range version_filter df =
     (case date_filtered date_range df of
        Inl e \<Rightarrow> Inl e
      | Inr rows \<Rightarrow>
          Inr (map (with_sentiment classify_sentiment_detail)
                 (if version_filter \<noteq> [] then filter (\<lambda>r. isin (Release_Version r) version_filter) rows
                  else rows)))"








text \<open>
  Lines 133-145: one row per release version of the filtered rows. \<open>groupby\<close> leaves
  out the rows without a release version and orders the groups by their key; \<open>min\<close>
  and \<open>max\<close> pass over missing dates and give NaT when there is none; \<open>first\<close> is the
  first description that is present; \<open>count\<close> counts the rows whose content is
  present. \<open>sort_values("Start")\<close> puts NaT last; the sort is modelled as the stable
  one. \<open>head(20)\<close> keeps the first twenty rows.
\<close>

record gantt_row =
  Version :: string
  Start :: "int option"
  End :: "int option"
  Description :: "string option"
  Reviews :: nat

definition min_present :: "int option list \<Rightarrow> int option" where
  "min_present xs = (case dropna xs of [] \<Rightarrow> None | t # ts \<Rightarrow> Some (fold min ts t))"

definition max_present :: "int option list \<Rightarrow> int option" where
  "max_present xs = (case dropna xs of [] \<Rightarrow> None | t # ts \<Rightarrow> Some (fold max ts t))"

definition first_present :: "'a option list \<Rightarrow> 'a option" where
  "first_present xs = (case dropna xs of [] \<Rightarrow> None | d # ds \<Rightarrow> Some d)"

definition gantt_group :: "int option scored list \<Rightarrow> string \<Rightarrow> gantt_row" where
  "gantt_group fdf v =
     (let rows = filter (\<lambda>r. Release_Version r = Some v) fdf in
      \<lparr>Version = v,
       Start = min_present (map Release_Date rows),
       End = max_present (map at_ts rows),
       Description = first_present (map Feature_Description rows),
       Reviews = length (dropna (map content rows))\<rparr>)"

definition start_key :: "gantt_row \<Rightarrow> nat \<times> int" where
  "start_key g = (case Start g of None \<Rightarrow> (1, 0) | Some t \<Rightarrow> (0, t))"

definition gantt_df :: "int option scored list \<Rightarrow> gantt_row list" where
  "gantt_df fdf =
     take 20 (sort_key start_key
       (map (gantt_group fdf) (sort (remdups (dropna (map Release_Version fdf))))))"

text \<open>
  Sample rows of the In-Detailed page: timestamp, content, release version, release
  date and feature description as given, the score 4 and the other cells empty; and a
  sheet of \<open>n\<close> rows of \<open>n\<close> release versions, the later in the sheet the earlier
  released.
\<close>

definition sample_review ::
  "int option \<Rightarrow> string option \<Rightarrow> string option \<Rightarrow> int option \<Rightarrow> string option
     \<Rightarrow> int option review" where
  "sample_review t c v d f =
     \<lparr>at_ts = t, Release_Date = d, content = c, score = 4, appVersion = None,
      Release_Version = v, reviewCreatedVersion = None, Feature_Description = f\<rparr>"

definition sample_releases :: "nat \<Rightarrow> int option scored list" where
  "sample_releases n =
     map (\<lambda>k. with_sentiment classify_sentiment_detail
            (sample_review (Some (int k)) (Some ''nice'') (Some (replicate (Suc k) (CHR ''v'')))
               (Some (int n - int k)) (Some ''Login#Search'')))
       [0..<n]"

section \<open>Properties of the string functions\<close>

lemma starts_with_prefix: "starts_with w t = prefix w t"
  by (induction w t rule: starts_with.induct) simp_all

lemma contains_sublist: "contains w t = sublist w t"
proof (induction t)
  case Nil
  show ?case by simp
next
  case (Cons c t)
  show ?case
  proof (cases w)
    case Nil
    then show ?thesis by simp
  next
    case (Cons a w')
    with Cons.IH show ?thesis
      by (simp add: starts_with_prefix sublist_Cons_right del: starts_with.simps)
  qed
qed

lemma any_contains: "list_ex (\<lambda>word. contains word t) ws = (\<exists>w \<in> set ws. sublist w t)"
  by (simp add: list_ex_iff contains_sublist)

section \<open>Lower-casing\<close>

lemma lower_append: "lower (a @ b) = lower a @ lower b"
  by (simp add: lower_def)

lemma sublist_lower: "sublist w s \<Longrightarrow> sublist (lower w) (lower s)"
  unfolding sublist_def by (metis lower_append)

lemma lower_char_not_P: "CHR ''P'' \<noteq> lower_char c"
proof
  assume "CHR ''P'' = lower_char c"
  then have "(of_char (lower_char c) :: nat) = of_char (CHR ''P'')"
    by (rule arg_cong [OF sym])
  then have "of_char (lower_char c) = (80::nat)" by simp
  then show False
    by (auto simp: lower_char_def Let_def split: if_splits)
qed

lemma no_P_in_lower: "CHR ''P'' \<notin> set (lower s)"
  by (auto simp: lower_def lower_char_not_P)

lemma perfectoo_never: "\<not> sublist ''Perfectoo'' (lower s)"
proof
  assume "sublist ''Perfectoo'' (lower s)"
  then have "set ''Perfectoo'' \<subseteq> set (lower s)" by (rule set_mono_sublist)
  then show False using no_P_in_lower [of s] by simp
qed

section \<open>The classifiers\<close>

text \<open>
  Claim C1. On each page the classifier lower-cases the text of the cell and answers
  Positive when a keyword of that page's positive list occurs in it as a substring,
  otherwise Negative when a keyword of the page's negative list occurs, otherwise
  Neutral. Occurrence is \<open>sublist\<close>: the keyword with some text before and after it, in
  the lower-cased text. The positive list is asked first, so a text with a keyword of
  each list is Positive, and a text with none is Neutral.
\<close>

theorem classify_sentiment_first_match:
  "classify_sentiment_balloon v =
     (if \<exists>w \<in> set positive_words_balloon. sublist w (lower (py_str v)) then Positive
      else if \<exists>w \<in> set negative_words_balloon. sublist w (lower (py_str v)) then Negative
      else Neutral)
   \<and> classify_sentiment_detail v =
     (if \<exists>w \<in> set positive_words_detail. sublist w (lower (py_str v)) then Positive
      else if \<exists>w \<in> set negative_words_detail. sublist w (lower (py_str v)) then Negative
      else Neutral)"
  by (simp only: classify_sentiment_balloon_def classify_sentiment_detail_def Let_def
      any_contains)

theorem classify_sentiment_first_match_witness:
  "(\<exists>w \<in> set positive_words_detail. sublist w (lower (py_str (Some ''Good app, BAD update''))))
   \<and> (\<exists>w \<in> set negative_words_detail. sublist w (lower (py_str (Some ''Good app, BAD update''))))
   \<and> classify_sentiment_balloon (Some ''Good app, BAD update'') = Positive
   \<and> classify_sentiment_detail (Some ''Good app, BAD update'') = Positive
   \<and> classify_sentiment_balloon (Some ''Worst PROBLEM'') = Negative
   \<and> classify_sentiment_detail (Some ''Worst PROBLEM'') = Negative
   \<and> classify_sentiment_balloon (Some ''It works'') = Neutral
   \<and> classify_sentiment_detail None = Neutral"
proof -
  have pos: "contains ''good'' (lower (py_str (Some ''Good app, BAD update'')))"
    by code_simp
  have neg: "contains ''bad'' (lower (py_str (Some ''Good app, BAD update'')))"
    by code_simp
  have p: "\<exists>w \<in> set positive_words_balloon.
      sublist w (lower (py_str (Some ''Good app, BAD update'')))"
    using pos by (auto simp: contains_sublist positive_words_balloon_def)
  have p': "\<exists>w \<in> set positive_words_detail.
      sublist w (lower (py_str (Some ''Good app, BAD update'')))"
    using pos by (auto simp: contains_sublist positive_words_detail_def)
  have n': "\<exists>w \<in> set negative_words_detail.
      sublist w (lower (py_str (Some ''Good app, BAD update'')))"
    using neg by (auto simp: contains_sublist negative_words_detail_def)
  have both: "classify_sentiment_balloon (Some ''Good app, BAD update'') = Positive
      \<and> classify_sentiment_detail (Some ''Good app, BAD update'') = Positive"
    using classify_sentiment_first_match [of "Some ''Good app, BAD update''"] p p'
    by simp
  have rest: "classify_sentiment_balloon (Some ''Worst PROBLEM'') = Negative
      \<and> classify_sentiment_detail (Some ''Worst PROBLEM'') = Negative
      \<and> classify_sentiment_balloon (Some ''It works'') = Neutral
      \<and> classify_sentiment_detail None = Neutral"
    by code_simp
  from p' n' both rest show ?thesis by blast
qed

text \<open>
  Claim C9. The balloon page's classifier and the same classifier without the keyword
  \<open>Perfectoo\<close> in its positive list are the same function. The text is lower-cased
  before the search and no lower-cased text holds the capital \<open>P\<close>, so that keyword
  never matches.
\<close>

theorem classify_sentiment_perfectoo_dead:
  "classify_sentiment_balloon v = classify_sentiment_no_perfectoo v"
  by (simp add: classify_sentiment_balloon_def classify_sentiment_no_perfectoo_def any_contains
      positive_words_balloon_def positive_words_no_perfectoo_def perfectoo_never)

section \<open>Digit runs and version keys\<close>


declare findall_digits.simps [simp del] re_split_digits.simps [simp del]

lemma concat_re_split_digits: "concat (re_split_digits s) = s"
proof (induction s rule: re_split_digits.induct)
  case (1 s)
  show ?case
  proof (cases "dropWhile (\<lambda>c. \<not> is_digit c) s = []")
    case True
    then show ?thesis
      by (subst re_split_digits.simps) (simp add: Let_def takeWhile_eq_all_conv)
  next
    case False
    from 1 [OF refl refl False]
    have "concat (re_split_digits (dropWhile is_digit (dropWhile (\<lambda>c. \<not> is_digit c) s)))
        = dropWhile is_digit (dropWhile (\<lambda>c. \<not> is_digit c) s)" .
    with False show ?thesis
      by (subst re_split_digits.simps) (simp add: Let_def)
  qed
qed






lemma findall_digits_empty_iff:
  "findall_digits s = [] \<longleftrightarrow> list_all (\<lambda>c. \<not> is_digit c) s"
  by (subst findall_digits.simps) (auto simp add: Let_def list_all_iff)











lemma set_dropna: "set (dropna xs) = {x. Some x \<in> set xs}"
proof (induction xs)
  case Nil
  show ?case by (simp add: dropna_def List.map_filter_simps)
next
  case (Cons x xs)
  then show ?case by (cases x) (auto simp: dropna_def List.map_filter_simps)
qed







section \<open>Rounding\<close>

lemma fold_max_Max: "fold max ts (t::int) = Max (set (t # ts))"
  by (simp only: Max.set_eq_fold)

lemma fold_min_Min: "fold min ts (t::int) = Min (set (t # ts))"
  by (simp only: Min.set_eq_fold)







section \<open>The balloon geometry\<close>

lemma balloon_fields:
  assumes "sdf \<noteq> []"
  shows "\<exists>g. balloon_of sdf = Some g
    \<and> reviews g = length sdf
    \<and> avg_score g = py_round2 (mean (map score sdf))
    \<and> duration_days g = (Max (at_ts ` set sdf) - Min (at_ts ` set sdf)) div day_ns
    \<and> duration_scaled g = max (of_int (duration_days g) / 15) (15 / 10)
    \<and> circle_pixel_radius g =
         min_size + max 0 (min ((avg_score g - score_min) / (score_max - score_min)) 1)
           * (max_size - min_size)
    \<and> circle_data_radius g = (circle_pixel_radius g / 2) * pixel_to_data_ratio
    \<and> stick_visible_height g = max (duration_scaled g - circle_data_radius g) (5 / 10)
    \<and> circle_y g = stick_visible_height g + circle_data_radius g"
proof -
  from assms obtain r rs where sdf: "sdf = r # rs" by (cases sdf) auto
  have m: "map at_ts sdf = at_ts r # map at_ts rs" by (simp add: sdf)
  have s: "set (at_ts r # map at_ts rs) = at_ts ` set sdf" by (simp add: sdf)
  show ?thesis
    unfolding balloon_of_def m list.case Let_def fold_max_Max fold_min_Min s
    by simp
qed

lemma stick_floor_never_binds:
  assumes "sdf \<noteq> []"
  shows "\<exists>g. balloon_of sdf = Some g
    \<and> circle_data_radius g \<le> 2 / 15 \<and> 3 / 2 \<le> duration_scaled g
    \<and> stick_visible_height g = duration_scaled g - circle_data_radius g"
proof -
  from balloon_fields [OF assms] obtain g where g: "balloon_of sdf = Some g"
    and d: "duration_scaled g = max (of_int (duration_days g) / 15) (15 / 10)"
    and p: "circle_pixel_radius g =
         min_size + max 0 (min ((avg_score g - score_min) / (score_max - score_min)) 1)
           * (max_size - min_size)"
    and c: "circle_data_radius g = (circle_pixel_radius g / 2) * pixel_to_data_ratio"
    and h: "stick_visible_height g = max (duration_scaled g - circle_data_radius g) (5 / 10)"
    by blast
  let ?n = "max 0 (min ((avg_score g - score_min) / (score_max - score_min)) 1)"
  have "?n \<le> 1" by simp
  then have "?n * 50 \<le> 50" by simp
  then have "circle_pixel_radius g \<le> 80" by (simp add: p min_size_def max_size_def)
  then have c': "circle_data_radius g \<le> 2 / 15" by (simp add: c pixel_to_data_ratio_def)
  have d': "3 / 2 \<le> duration_scaled g" by (simp add: d)
  from c' d' have "5 / 10 \<le> duration_scaled g - circle_data_radius g" by simp
  then have "stick_visible_height g = duration_scaled g - circle_data_radius g"
    unfolding h by (rule max_absorb1)
  with g c' d' show ?thesis by blast
qed


text \<open>
  Claim C4. For every non-empty bucket the balloon is drawn, \<open>duration_days\<close> is the
  number of whole days between the earliest and the latest timestamp of the bucket,
  and the scaled stick length is \<open>max(duration_days / 15, 1.5)\<close>: a span of 0 days
  gives 1.5 and a span of 30 days gives 2.
\<close>

theorem duration_scaled_formula:
  "sdf \<noteq> [] \<Longrightarrow>
   \<exists>g. balloon_of sdf = Some g
     \<and> duration_days g = (Max (at_ts ` set sdf) - Min (at_ts ` set sdf)) div day_ns
     \<and> duration_scaled g = max (of_int (duration_days g) / 15) (15 / 10)
     \<and> (duration_days g = 0 \<longrightarrow> duration_scaled g = 15 / 10)
     \<and> (duration_days g = 30 \<longrightarrow> duration_scaled g = 2)"
proof -
  assume ne: "sdf \<noteq> []"
  from balloon_fields [OF ne] obtain g where g: "balloon_of sdf = Some g"
    and dd: "duration_days g = (Max (at_ts ` set sdf) - Min (at_ts ` set sdf)) div day_ns"
    and d: "duration_scaled g = max (of_int (duration_days g) / 15) (15 / 10)"
    by blast
  have z: "duration_days g = 0 \<longrightarrow> duration_scaled g = 15 / 10" by (simp add: d)
  have t: "duration_days g = 30 \<longrightarrow> duration_scaled g = 2" by (simp add: d)
  from g dd d z t show ?thesis by blast
qed

theorem duration_scaled_formula_witness:
  "neutral_bucket (sample_sheet [(0, 4), (30 * day_ns + 5, 5), (7, 3)]) \<noteq> []
   \<and> map_option duration_days
        (balloon_of (neutral_bucket (sample_sheet [(0, 4), (30 * day_ns + 5, 5), (7, 3)]))) = Some 30
   \<and> map_option duration_scaled
        (balloon_of (neutral_bucket (sample_sheet [(0, 4), (30 * day_ns + 5, 5), (7, 3)]))) = Some 2
   \<and> neutral_bucket (sample_sheet [(100, 4), (day_ns + 99, 2)]) \<noteq> []
   \<and> map_option duration_days
        (balloon_of (neutral_bucket (sample_sheet [(100, 4), (day_ns + 99, 2)]))) = Some 0
   \<and> map_option duration_scaled
        (balloon_of (neutral_bucket (sample_sheet [(100, 4), (day_ns + 99, 2)]))) = Some (15 / 10)"
proof -
  let ?A = "neutral_bucket (sample_sheet [(0, 4), (30 * day_ns + 5, 5), (7, 3)])"
  let ?B = "neutral_bucket (sample_sheet [(100, 4), (day_ns + 99, 2)])"
  have neA: "?A \<noteq> []" by code_simp
  have neB: "?B \<noteq> []" by code_simp
  have dA: "map_option duration_days (balloon_of ?A) = Some 30" by code_simp
  have dB: "map_option duration_days (balloon_of ?B) = Some 0" by code_simp
  from duration_scaled_formula [OF neA] dA
  have sA: "map_option duration_scaled (balloon_of ?A) = Some 2" by auto
  from duration_scaled_formula [OF neB] dB
  have sB: "map_option duration_scaled (balloon_of ?B) = Some (15 / 10)" by auto
  from neA dA sA neB dB sB show ?thesis by (intro conjI)
qed

text \<open>
  Claim C10. For every non-empty bucket the height of the stick is
  \<open>max(duration_scaled - circle_data_radius, 0.5)\<close>, where the converted radius is half
  the pixel radius times the pixel-to-data ratio, the centre of the circle is that
  height plus the converted radius, and the height is never below 0.5.
\<close>

theorem stick_height_floor:
  "sdf \<noteq> [] \<Longrightarrow>
   \<exists>g. balloon_of sdf = Some g
     \<and> circle_data_radius g = (circle_pixel_radius g / 2) * pixel_to_data_ratio
     \<and> stick_visible_height g = max (duration_scaled g - circle_data_radius g) (5 / 10)
     \<and> circle_y g = stick_visible_height g + circle_data_radius g
     \<and> 5 / 10 \<le> stick_visible_height g"
proof -
  assume ne: "sdf \<noteq> []"
  from balloon_fields [OF ne] obtain g where g: "balloon_of sdf = Some g"
    "circle_data_radius g = (circle_pixel_radius g / 2) * pixel_to_data_ratio"
    "stick_visible_height g = max (duration_scaled g - circle_data_radius g) (5 / 10)"
    "circle_y g = stick_visible_height g + circle_data_radius g" by blast
  have "5 / 10 \<le> max (duration_scaled g - circle_data_radius g) (5 / 10)"
    by (rule max.cobounded2)
  then have "5 / 10 \<le> stick_visible_height g" by (simp only: g(3))
  with g show ?thesis by blast
qed

theorem stick_height_floor_witness:
  "neutral_bucket (sample_sheet [(0, 41 / 10)]) \<noteq> []
   \<and> (\<exists>g. balloon_of (neutral_bucket (sample_sheet [(0, 41 / 10)])) = Some g
        \<and> circle_data_radius g = (circle_pixel_radius g / 2) * pixel_to_data_ratio
        \<and> stick_visible_height g = max (duration_scaled g - circle_data_radius g) (5 / 10)
        \<and> circle_y g = stick_visible_height g + circle_data_radius g
        \<and> 5 / 10 \<le> stick_visible_height g)
   \<and> map_option stick_visible_height
        (balloon_of (neutral_bucket (sample_sheet [(0, 41 / 10)]))) = Some (169 / 120)
   \<and> map_option circle_y
        (balloon_of (neutral_bucket (sample_sheet [(0, 41 / 10)]))) = Some (15 / 10)"
proof -
  let ?A = "neutral_bucket (sample_sheet [(0, 41 / 10)])"
  have ne: "?A \<noteq> []" by code_simp
  have v: "map_option stick_visible_height (balloon_of ?A) = Some (169 / 120)"
    "map_option circle_y (balloon_of ?A) = Some (15 / 10)" by code_simp+
  from ne stick_height_floor [OF ne] v show ?thesis by (intro conjI)
qed




section \<open>The feature list\<close>

lemma fold_features: "fold (\<lambda>entry acc. acc \<union> set (features entry)) raw A
    = A \<union> set (concat (map features raw))"
  by (induction raw arbitrary: A) auto

lemma feature_set_concat: "feature_set raw = set (concat (map features raw))"
  by (simp add: feature_set_def fold_features)

lemma feature_set_fragments:
  "feature_set raw = {strip d | d e. e \<in> set raw \<and> d \<in> set (split_hash e) \<and> strip d \<noteq> []}"
  by (auto simp: feature_set_concat features_def)

lemma feature_list_sorted:
  "sorted (feature_list raw) \<and> distinct (feature_list raw)
     \<and> set (feature_list raw) = feature_set raw"
  by (simp add: feature_list_def feature_set_concat)

lemma split_from_append:
  "CHR ''#'' \<notin> set f \<Longrightarrow> split_from cur (f @ rest) = split_from (rev f @ cur) rest"
  by (induction f arbitrary: cur) auto

lemma split_from_join:
  "\<forall>f \<in> set fs. CHR ''#'' \<notin> set f \<Longrightarrow> fs \<noteq> [] \<Longrightarrow>
   split_from cur (join_hash fs) = (rev cur @ hd fs) # tl fs"
proof (induction fs arbitrary: cur rule: join_hash.induct)
  case 1
  then show ?case by simp
next
  case (2 f)
  then have "split_from cur (f @ []) = split_from (rev f @ cur) []"
    by (intro split_from_append) simp
  then show ?case by simp
next
  case (3 f g fs)
  from 3 have "split_from cur (f @ CHR ''#'' # join_hash (g # fs))
      = split_from (rev f @ cur) (CHR ''#'' # join_hash (g # fs))"
    by (intro split_from_append) simp
  moreover from 3 have "split_from [] (join_hash (g # fs)) = (rev [] @ hd (g # fs)) # tl (g # fs)"
    by (intro "3.IH") simp_all
  ultimately show ?case by simp
qed

lemma split_hash_join:
  "\<forall>f \<in> set fs. CHR ''#'' \<notin> set f \<Longrightarrow> fs \<noteq> [] \<Longrightarrow> split_hash (join_hash fs) = fs"
  by (simp add: split_hash_def split_from_join)

lemma feature_set_join:
  assumes "\<forall>f \<in> set fs. CHR ''#'' \<notin> set f" "fs \<noteq> []"
  shows "feature_set [join_hash fs] = {strip f | f. f \<in> set fs \<and> strip f \<noteq> []}"
  using assms by (auto simp: feature_set_fragments split_hash_join)

lemma split_from_no_hash:
  "d \<in> set (split_from cur s) \<Longrightarrow> CHR ''#'' \<notin> set cur \<Longrightarrow> CHR ''#'' \<notin> set d"
proof (induction s arbitrary: cur)
  case Nil
  then show ?case by simp
next
  case (Cons c s)
  show ?case
  proof (cases "c = CHR ''#''")
    case True
    with Cons.prems have "d = rev cur \<or> d \<in> set (split_from [] s)" by simp
    then show ?thesis
    proof
      assume "d = rev cur"
      with Cons.prems show ?thesis by simp
    next
      assume "d \<in> set (split_from [] s)"
      then show ?thesis by (rule Cons.IH) simp
    qed
  next
    case False
    with Cons.prems have "d \<in> set (split_from (c # cur) s)" by simp
    then show ?thesis by (rule Cons.IH) (use False Cons.prems in simp)
  qed
qed

lemma set_strip: "set (strip s) \<subseteq> set s"
  by (auto simp: strip_def dest!: set_dropWhileD)

lemma last_dropWhile_ne: "dropWhile P xs \<noteq> [] \<Longrightarrow> last (dropWhile P xs) = last xs"
proof (induction xs)
  case Nil
  then show ?case by simp
next
  case (Cons x xs)
  then show ?case by (cases "P x") (auto split: if_splits)
qed

lemma strip_ends:
  assumes "strip s \<noteq> []"
  shows "\<not> is_space (hd (strip s)) \<and> \<not> is_space (last (strip s))"
proof -
  let ?t = "dropWhile is_space s"
  let ?u = "dropWhile is_space (rev ?t)"
  from assms have u: "?u \<noteq> []" by (simp add: strip_def)
  have t: "?t \<noteq> []"
  proof
    assume e: "?t = []"
    from u show False unfolding e by simp
  qed
  from u have "\<not> is_space (hd ?u)" by (rule hd_dropWhile)
  with u have l: "\<not> is_space (last (strip s))" by (simp add: strip_def last_rev)
  from u have "last ?u = last (rev ?t)" by (rule last_dropWhile_ne)
  with t have "last ?u = hd ?t" by (simp add: last_rev)
  moreover from t have "\<not> is_space (hd ?t)" by (rule hd_dropWhile)
  ultimately have "\<not> is_space (hd (strip s))" using u by (simp add: strip_def hd_rev)
  with l show ?thesis by simp
qed

lemma feature_trimmed:
  assumes "x \<in> feature_set raw"
  shows "x \<noteq> [] \<and> \<not> is_space (hd x) \<and> \<not> is_space (last x) \<and> CHR ''#'' \<notin> set x"
proof -
  from assms obtain d e where x: "x = strip d" "e \<in> set raw" "d \<in> set (split_hash e)"
    "strip d \<noteq> []" by (auto simp: feature_set_fragments)
  from x(3) have "CHR ''#'' \<notin> set d"
    unfolding split_hash_def by (rule split_from_no_hash) simp
  with set_strip [of d] have "CHR ''#'' \<notin> set (strip d)" by blast
  with x strip_ends [of d] show ?thesis by simp
qed

text \<open>
  Claim C8. The feature list of the selected rows is made of the pieces of their
  descriptions between the \<open>#\<close> separators, each trimmed of surrounding white space,
  the empty ones dropped, each kept once, in alphabetical order. The entry
  \<open>Login#Search # Export\<close> gives the set of \<open>Login\<close>, \<open>Search\<close> and \<open>Export\<close>; the
  result depends neither on the order of the fragments in an entry nor on the order
  or repetition of the entries.
\<close>

theorem feature_list_split:
  "feature_set [''Login#Search # Export''] = {''Login'', ''Search'', ''Export''}
   \<and> feature_list [''Login#Search # Export''] = [''Export'', ''Login'', ''Search'']
   \<and> feature_set raw =
        {strip d | d e. e \<in> set raw \<and> d \<in> set (split_hash e) \<and> strip d \<noteq> []}
   \<and> sorted (feature_list raw) \<and> distinct (feature_list raw)
   \<and> set (feature_list raw) = feature_set raw
   \<and> ((\<forall>f \<in> set fs \<union> set gs. CHR ''#'' \<notin> set f) \<and> fs \<noteq> [] \<and> set fs = set gs \<longrightarrow>
        feature_set [join_hash fs] = feature_set [join_hash gs]
        \<and> feature_list [join_hash fs] = feature_list [join_hash gs])
   \<and> (set raw = set raw' \<longrightarrow> feature_list raw = feature_list raw')"
proof -
  have c1: "feature_set [''Login#Search # Export''] = {''Login'', ''Search'', ''Export''}"
    by code_simp
  have c2: "feature_list [''Login#Search # Export''] = [''Export'', ''Login'', ''Search'']"
    by code_simp
  note c3 = feature_set_fragments [of raw]
  from feature_list_sorted [of raw] have c4: "sorted (feature_list raw)"
    and c4': "distinct (feature_list raw)" and c4'': "set (feature_list raw) = feature_set raw"
    by blast+
  have c5: "(\<forall>f \<in> set fs \<union> set gs. CHR ''#'' \<notin> set f) \<and> fs \<noteq> [] \<and> set fs = set gs \<longrightarrow>
        feature_set [join_hash fs] = feature_set [join_hash gs]
        \<and> feature_list [join_hash fs] = feature_list [join_hash gs]"
  proof
    assume a: "(\<forall>f \<in> set fs \<union> set gs. CHR ''#'' \<notin> set f) \<and> fs \<noteq> [] \<and> set fs = set gs"
    then have "gs \<noteq> []" by auto
    with a have "feature_set [join_hash fs] = feature_set [join_hash gs]"
      by (simp add: feature_set_join)
    then show "feature_set [join_hash fs] = feature_set [join_hash gs]
        \<and> feature_list [join_hash fs] = feature_list [join_hash gs]"
      by (simp add: feature_list_def)
  qed
  have c6: "set raw = set raw' \<longrightarrow> feature_list raw = feature_list raw'"
  proof
    assume "set raw = set raw'"
    then have "feature_set raw = feature_set raw'" by (simp only: feature_set_fragments)
    then show "feature_list raw = feature_list raw'" by (simp only: feature_list_def)
  qed
  from c1 c2 c3 c4 c4' c4'' c5 c6 show ?thesis by (intro conjI)
qed

theorem feature_list_split_witness:
  "(\<forall>f \<in> set [''Login'', ''Search '', '' Export''] \<union> set ['' Export'', ''Login'', ''Search ''].
      CHR ''#'' \<notin> set f) = True
   \<and> join_hash [''Login'', ''Search '', '' Export''] = ''Login#Search # Export''
   \<and> join_hash ['' Export'', ''Login'', ''Search ''] = '' Export#Login#Search ''
   \<and> feature_set [''Login#Search # Export''] = feature_set ['' Export#Login#Search '']
   \<and> feature_list ['' Export#Login#Search ''] = [''Export'', ''Login'', ''Search'']
   \<and> set [''b#a'', ''c'', ''b#a''] = set [''c'', ''b#a'']
   \<and> feature_list [''b#a'', ''c'', ''b#a''] = feature_list [''c'', ''b#a'']"
proof -
  let ?fs = "[''Login'', ''Search '', '' Export'']"
  let ?gs = "['' Export'', ''Login'', ''Search '']"
  have h1: "\<forall>f \<in> set ?fs \<union> set ?gs. CHR ''#'' \<notin> set f" by simp
  have h2: "?fs \<noteq> []" by simp
  have h3: "set ?fs = set ?gs" by auto
  have j1: "join_hash ?fs = ''Login#Search # Export''" by simp
  have j2: "join_hash ?gs = '' Export#Login#Search ''" by simp
  have h4: "set [''b#a'', ''c'', ''b#a''] = set [''c'', ''b#a'']" by auto
  note inst = feature_list_split [of "[''b#a'', ''c'', ''b#a'']" ?fs ?gs "[''c'', ''b#a'']"]
  from inst h1 h2 h3 have r1: "feature_set [join_hash ?fs] = feature_set [join_hash ?gs]"
    "feature_list [join_hash ?fs] = feature_list [join_hash ?gs]" by blast+
  from inst h4 have r2: "feature_list [''b#a'', ''c'', ''b#a''] = feature_list [''c'', ''b#a'']"
    by blast
  from inst have r0: "feature_list [''Login#Search # Export''] = [''Export'', ''Login'', ''Search'']"
    by blast
  from r1 r0 have r3: "feature_set [''Login#Search # Export''] = feature_set ['' Export#Login#Search '']"
    "feature_list ['' Export#Login#Search ''] = [''Export'', ''Login'', ''Search'']"
    unfolding j1 j2 by simp_all
  from h1 have h1': "(\<forall>f \<in> set ?fs \<union> set ?gs. CHR ''#'' \<notin> set f) = True" by simp
  from h1' j1 j2 r3 h4 r2 show ?thesis by (intro conjI)
qed

section \<open>Filtering and the download\<close>

lemma ts_le_iff: "ts_le a b \<longleftrightarrow> (\<exists>x y. a = Some x \<and> b = Some y \<and> x \<le> y)"
  by (auto simp: ts_le_def split: option.splits)

lemma in_range_iff:
  "ts_le lo (at_ts r) \<and> ts_le (at_ts r) hi
     \<longleftrightarrow> (\<exists>t a b. at_ts r = Some t \<and> lo = Some a \<and> hi = Some b \<and> a \<le> t \<and> t \<le> b)"
  by (auto simp: ts_le_iff)

lemma date_filtered_two:
  "date_filtered (lo # hi # others) df =
     Inr (filter (\<lambda>r. \<exists>t a b. at_ts r = Some t \<and> lo = Some a \<and> hi = Some b \<and> a \<le> t \<and> t \<le> b) df)"
  by (simp add: date_filtered_def in_range_iff)

lemma date_filtered_short:
  "length date_range < 2 \<Longrightarrow> date_filtered date_range df = Inl IndexError"
  by (cases date_range; cases "tl date_range") (auto simp: date_filtered_def)

lemma with_sentiment_fields:
  "at_ts (with_sentiment c r) = at_ts r" "content (with_sentiment c r) = content r"
  "score (with_sentiment c r) = score r" "Release_Date (with_sentiment c r) = Release_Date r"
  "Release_Version (with_sentiment c r) = Release_Version r"
  "reviewCreatedVersion (with_sentiment c r) = reviewCreatedVersion r"
  "Feature_Description (with_sentiment c r) = Feature_Description r"
  "appVersion (with_sentiment c r) = appVersion r"
  "Sentiment (with_sentiment c r) = c (content r)"
  by (simp_all add: with_sentiment_def)

lemma filtered_df_two:
  "filtered_df (lo # hi # others) version_filter df =
     Inr (map (with_sentiment classify_sentiment_detail)
       (filter (\<lambda>r. (\<exists>t a b. at_ts r = Some t \<and> lo = Some a \<and> hi = Some b \<and> a \<le> t \<and> t \<le> b)
                 \<and> (version_filter = [] \<or> isin (Release_Version r) version_filter)) df))"
  by (simp add: filtered_df_def date_filtered_two)

text \<open>
  Claim C5. With both ends of the date range given, the date filter returns, without
  raising, exactly the rows whose timestamp is present and lies between the two ends,
  both included. A row whose date became NaT is in no such result: neither in the
  date-filtered rows nor in what the version filter leaves of them.
\<close>

theorem date_filter_inclusive:
  "date_range = lo # hi # others \<Longrightarrow>
   \<exists>rows. date_filtered date_range df = Inr rows
     \<and> rows = filter (\<lambda>r. \<exists>t a b. at_ts r = Some t \<and> lo = Some a \<and> hi = Some b
                           \<and> a \<le> t \<and> t \<le> b) df
     \<and> (\<forall>r \<in> set df. at_ts r = None \<longrightarrow> r \<notin> set rows)
     \<and> (\<exists>fdf. filtered_df date_range version_filter df = Inr fdf
          \<and> (\<forall>r \<in> set fdf. \<exists>t a b. at_ts r = Some t \<and> lo = Some a \<and> hi = Some b
                 \<and> a \<le> t \<and> t \<le> b))"
  by (auto simp: date_filtered_two filtered_df_two with_sentiment_fields)

theorem date_filter_inclusive_witness:
  "date_filtered [Some 10, Some 20]
     [sample_review (Some 10) (Some ''Good'') (Some ''1.0'') (Some 3) (Some ''A#B''),
      sample_review None (Some ''bad'') (Some ''1.0'') None None,
      sample_review (Some 21) None None None None,
      sample_review (Some 20) None (Some ''2.0'') None None]
   = Inr [sample_review (Some 10) (Some ''Good'') (Some ''1.0'') (Some 3) (Some ''A#B''),
          sample_review (Some 20) None (Some ''2.0'') None None]
   \<and> at_ts (sample_review None (Some ''bad'') (Some ''1.0'') None None) = None"
proof -
  let ?df = "[sample_review (Some 10) (Some ''Good'') (Some ''1.0'') (Some 3) (Some ''A#B''),
      sample_review None (Some ''bad'') (Some ''1.0'') None None,
      sample_review (Some 21) None None None None,
      sample_review (Some 20) None (Some ''2.0'') None None]"
  have h: "[Some 10, Some 20] = Some (10::int) # Some 20 # []" by simp
  from date_filter_inclusive [OF h, of ?df "[]"]
  obtain rows where r: "date_filtered [Some 10, Some 20] ?df = Inr rows"
    and f: "rows = filter (\<lambda>r. \<exists>t a b. at_ts r = Some t \<and> Some 10 = Some a \<and> Some 20 = Some b
                           \<and> a \<le> t \<and> t \<le> b) ?df"
    by blast
  have "rows = [sample_review (Some 10) (Some ''Good'') (Some ''1.0'') (Some 3) (Some ''A#B''),
          sample_review (Some 20) None (Some ''2.0'') None None]"
    unfolding f by (simp add: sample_review_def)
  with r show ?thesis by (simp add: sample_review_def)
qed




section \<open>The Gantt table\<close>

lemma min_present_Min:
  "min_present xs = (if {d. Some d \<in> set xs} = {} then None else Some (Min {d. Some d \<in> set xs}))"
proof (cases "dropna xs")
  case Nil
  then have "{d. Some d \<in> set xs} = {}" using set_dropna [of xs] by simp
  with Nil show ?thesis by (simp add: min_present_def)
next
  case (Cons t ts)
  then have s: "{d. Some d \<in> set xs} = set (t # ts)" using set_dropna [of xs] by simp
  show ?thesis unfolding s min_present_def Cons list.case fold_min_Min by simp
qed

lemma max_present_Max:
  "max_present xs = (if {d. Some d \<in> set xs} = {} then None else Some (Max {d. Some d \<in> set xs}))"
proof (cases "dropna xs")
  case Nil
  then have "{d. Some d \<in> set xs} = {}" using set_dropna [of xs] by simp
  with Nil show ?thesis by (simp add: max_present_def)
next
  case (Cons t ts)
  then have s: "{d. Some d \<in> set xs} = set (t # ts)" using set_dropna [of xs] by simp
  show ?thesis unfolding s max_present_def Cons list.case fold_max_Max by simp
qed

lemma length_dropna: "length (dropna xs) = length (filter (\<lambda>x. x \<noteq> None) xs)"
proof (induction xs)
  case Nil
  show ?case by (simp add: dropna_def List.map_filter_simps)
next
  case (Cons x xs)
  then show ?case by (cases x) (auto simp: dropna_def List.map_filter_simps)
qed

lemma gantt_group_fields:
  "Version (gantt_group fdf v) = v"
  "Start (gantt_group fdf v) =
     (if {d. \<exists>r \<in> set fdf. Release_Version r = Some v \<and> Release_Date r = Some d} = {} then None
      else Some (Min {d. \<exists>r \<in> set fdf. Release_Version r = Some v \<and> Release_Date r = Some d}))"
  "End (gantt_group fdf v) =
     (if {t. \<exists>r \<in> set fdf. Release_Version r = Some v \<and> at_ts r = Some t} = {} then None
      else Some (Max {t. \<exists>r \<in> set fdf. Release_Version r = Some v \<and> at_ts r = Some t}))"
  "Description (gantt_group fdf v) =
     first_present (map Feature_Description (filter (\<lambda>r. Release_Version r = Some v) fdf))"
  "Reviews (gantt_group fdf v) =
     length (filter (\<lambda>r. Release_Version r = Some v \<and> content r \<noteq> None) fdf)"
proof -
  let ?rows = "filter (\<lambda>r. Release_Version r = Some v) fdf"
  have a: "{d. Some d \<in> set (map Release_Date ?rows)}
      = {d. \<exists>r \<in> set fdf. Release_Version r = Some v \<and> Release_Date r = Some d}"
    by (auto simp: image_iff)
  have b: "{t. Some t \<in> set (map at_ts ?rows)}
      = {t. \<exists>r \<in> set fdf. Release_Version r = Some v \<and> at_ts r = Some t}"
    by (auto simp: image_iff)
  show "Version (gantt_group fdf v) = v" by (simp add: gantt_group_def Let_def)
  show "Start (gantt_group fdf v) =
     (if {d. \<exists>r \<in> set fdf. Release_Version r = Some v \<and> Release_Date r = Some d} = {} then None
      else Some (Min {d. \<exists>r \<in> set fdf. Release_Version r = Some v \<and> Release_Date r = Some d}))"
    unfolding a [symmetric] by (simp add: gantt_group_def Let_def min_present_Min)
  show "End (gantt_group fdf v) =
     (if {t. \<exists>r \<in> set fdf. Release_Version r = Some v \<and> at_ts r = Some t} = {} then None
      else Some (Max {t. \<exists>r \<in> set fdf. Release_Version r = Some v \<and> at_ts r = Some t}))"
    unfolding b [symmetric] by (simp add: gantt_group_def Let_def max_present_Max)
  show "Description (gantt_group fdf v) =
     first_present (map Feature_Description (filter (\<lambda>r. Release_Version r = Some v) fdf))"
    by (simp add: gantt_group_def Let_def)
  show "Reviews (gantt_group fdf v) =
     length (filter (\<lambda>r. Release_Version r = Some v \<and> content r \<noteq> None) fdf)"
    by (simp add: gantt_group_def Let_def length_dropna filter_map comp_def conj_commute)
qed

lemma start_key_le:
  "start_key g \<le> start_key h \<longleftrightarrow>
     (case (Start g, Start h) of
        (Some a, Some b) \<Rightarrow> a \<le> b
      | (None, Some b) \<Rightarrow> False
      | (_, None) \<Rightarrow> True)"
  by (auto simp: start_key_def split: option.splits)

lemma gantt_keys:
  "set (sort (remdups (dropna (map Release_Version fdf)))) = {v. Some v \<in> Release_Version ` set fdf}"
  "distinct (sort (remdups (dropna (map Release_Version fdf))))"
  "length (sort (remdups (dropna (map Release_Version fdf))))
     = card {v. Some v \<in> Release_Version ` set fdf}"
proof -
  let ?ks = "remdups (dropna (map Release_Version fdf))"
  show s: "set (sort ?ks) = {v. Some v \<in> Release_Version ` set fdf}"
    by (simp add: set_dropna)
  show d: "distinct (sort ?ks)" by simp
  from d have "card (set (sort ?ks)) = length (sort ?ks)" by (rule distinct_card)
  with s show "length (sort ?ks) = card {v. Some v \<in> Release_Version ` set fdf}" by simp
qed

lemma gantt_sorted_all:
  fixes fdf :: "int option scored list"
  defines "L \<equiv> sort_key start_key
       (map (gantt_group fdf) (sort (remdups (dropna (map Release_Version fdf)))))"
  shows "set L = gantt_group fdf ` {v. Some v \<in> Release_Version ` set fdf}"
    and "length L = card {v. Some v \<in> Release_Version ` set fdf}"
    and "distinct (map Version L)"
    and "sorted (map start_key L)"
proof -
  let ?ks = "sort (remdups (dropna (map Release_Version fdf)))"
  show s: "set L = gantt_group fdf ` {v. Some v \<in> Release_Version ` set fdf}"
    unfolding L_def using gantt_keys(1) [of fdf] by simp
  show "length L = card {v. Some v \<in> Release_Version ` set fdf}"
    unfolding L_def using gantt_keys(3) [of fdf] by simp
  have v: "map Version (map (gantt_group fdf) ?ks) = ?ks"
    by (simp add: gantt_group_fields(1) comp_def)
  have i: "inj_on (gantt_group fdf) (set ?ks)"
    by (rule inj_onI) (metis gantt_group_fields(1))
  have "distinct (map (gantt_group fdf) ?ks)"
    using gantt_keys(2) [of fdf] i by (simp only: distinct_map)
  then have dl: "distinct L" unfolding L_def by (simp only: distinct_sort)
  have "inj_on Version (set L)"
    unfolding s by (rule inj_onI) (auto simp: gantt_group_fields(1))
  with dl show "distinct (map Version L)" by (simp add: distinct_map)
  show "sorted (map start_key L)" unfolding L_def by (rule sorted_sort_key)
qed

lemma sorted_take_le_drop:
  fixes f :: "'a \<Rightarrow> 'k::linorder"
  assumes "sorted (map f xs)" "a \<in> set (take n xs)" "b \<in> set (drop n xs)"
  shows "f a \<le> f b"
proof -
  have "map f xs = map f (take n xs) @ map f (drop n xs)"
    by (simp flip: map_append)
  with assms(1) have "sorted (map f (take n xs) @ map f (drop n xs))" by simp
  then have "\<forall>x \<in> set (map f (take n xs)). \<forall>y \<in> set (map f (drop n xs)). x \<le> y"
    by (simp only: sorted_append) blast
  with assms(2,3) show ?thesis by auto
qed

lemma gantt_cap_structure:
  "length (gantt_df fdf) = min 20 (card {v. Some v \<in> Release_Version ` set fdf})
   \<and> length (gantt_df fdf) \<le> 20
   \<and> distinct (map Version (gantt_df fdf))
   \<and> sorted (map start_key (gantt_df fdf))
   \<and> (\<forall>g \<in> set (gantt_df fdf).
         Some (Version g) \<in> Release_Version ` set fdf \<and> g = gantt_group fdf (Version g))
   \<and> (\<forall>v. Some v \<in> Release_Version ` set fdf \<and> v \<notin> Version ` set (gantt_df fdf) \<longrightarrow>
         (\<forall>g \<in> set (gantt_df fdf). start_key g \<le> start_key (gantt_group fdf v)))
   \<and> (card {v. Some v \<in> Release_Version ` set fdf} \<le> 20 \<longrightarrow>
         Version ` set (gantt_df fdf) = {v. Some v \<in> Release_Version ` set fdf})"
proof -
  let ?V = "{v. Some v \<in> Release_Version ` set fdf}"
  let ?L = "sort_key start_key
       (map (gantt_group fdf) (sort (remdups (dropna (map Release_Version fdf)))))"
  note L = gantt_sorted_all [of fdf]
  have G: "gantt_df fdf = take 20 ?L" by (simp add: gantt_df_def)
  have "length (take 20 ?L) = min (length ?L) 20" by (rule length_take)
  then have c1: "length (gantt_df fdf) = min 20 (card ?V)"
    unfolding G L(2) by (simp only: min.commute)
  then have c2: "length (gantt_df fdf) \<le> 20" by simp
  have "distinct (take 20 (map Version ?L))" using L(3) by (rule distinct_take)
  then have c3: "distinct (map Version (gantt_df fdf))" unfolding G by (simp only: take_map)
  have "sorted (take 20 (map start_key ?L))" using L(4) by (rule sorted_wrt_take)
  then have c4: "sorted (map start_key (gantt_df fdf))" unfolding G by (simp only: take_map)
  have sub: "set (gantt_df fdf) \<subseteq> gantt_group fdf ` ?V"
    unfolding G using set_take_subset [of 20 ?L] L(1) by simp
  have c5: "\<forall>g \<in> set (gantt_df fdf).
         Some (Version g) \<in> Release_Version ` set fdf \<and> g = gantt_group fdf (Version g)"
  proof
    fix g assume "g \<in> set (gantt_df fdf)"
    with sub obtain v where "v \<in> ?V" "g = gantt_group fdf v" by blast
    then show "Some (Version g) \<in> Release_Version ` set fdf \<and> g = gantt_group fdf (Version g)"
      by (simp add: gantt_group_fields(1))
  qed
  have c6: "\<forall>v. Some v \<in> Release_Version ` set fdf \<and> v \<notin> Version ` set (gantt_df fdf) \<longrightarrow>
         (\<forall>g \<in> set (gantt_df fdf). start_key g \<le> start_key (gantt_group fdf v))"
  proof (intro allI impI ballI)
    fix v g
    assume a: "Some v \<in> Release_Version ` set fdf \<and> v \<notin> Version ` set (gantt_df fdf)"
      and g: "g \<in> set (gantt_df fdf)"
    from a have "gantt_group fdf v \<in> set ?L" using L(1) by simp
    then have "gantt_group fdf v \<in> set (take 20 ?L) \<union> set (drop 20 ?L)"
      by (simp only: set_append [symmetric] append_take_drop_id)
    moreover from a have "gantt_group fdf v \<notin> set (take 20 ?L)"
      unfolding G by (metis gantt_group_fields(1) image_eqI)
    ultimately have "gantt_group fdf v \<in> set (drop 20 ?L)" by simp
    with L(4) g [unfolded G] show "start_key g \<le> start_key (gantt_group fdf v)"
      by (rule sorted_take_le_drop)
  qed
  have c7: "card ?V \<le> 20 \<longrightarrow> Version ` set (gantt_df fdf) = ?V"
  proof
    assume "card ?V \<le> 20"
    then have "take 20 ?L = ?L" using L(2) by simp
    then have "set (gantt_df fdf) = gantt_group fdf ` ?V" unfolding G using L(1) by simp
    then show "Version ` set (gantt_df fdf) = ?V"
      by (simp add: image_image gantt_group_fields(1))
  qed
  from c1 c2 c3 c4 c5 c6 c7 show ?thesis by (intro conjI)
qed

lemma first_present_hd:
  "xs = Some d # ys \<Longrightarrow> first_present xs = Some d"
  by (simp add: first_present_def dropna_def List.map_filter_simps)

text \<open>
  Claim C6. The Gantt table has at most twenty rows, one for each of the release
  versions of the filtered rows, or twenty of them when there are more. The row of a
  version holds the earliest release date and the latest review timestamp of its
  rows, the first feature description they have and the number of them with a
  content (all of them when no content is missing). The rows are in the order of
  their start, and no version left out starts before a version kept; an unknown
  start counts as the latest.
\<close>

theorem gantt_aggregate:
  "length (gantt_df fdf) = min 20 (card {v. Some v \<in> Release_Version ` set fdf})
   \<and> length (gantt_df fdf) \<le> 20
   \<and> distinct (map Version (gantt_df fdf))
   \<and> sorted (map start_key (gantt_df fdf))
   \<and> (\<forall>g \<in> set (gantt_df fdf).
         Some (Version g) \<in> Release_Version ` set fdf \<and> g = gantt_group fdf (Version g))
   \<and> (\<forall>v. Some v \<in> Release_Version ` set fdf \<and> v \<notin> Version ` set (gantt_df fdf) \<longrightarrow>
         (\<forall>g \<in> set (gantt_df fdf). start_key g \<le> start_key (gantt_group fdf v)))
   \<and> (card {v. Some v \<in> Release_Version ` set fdf} \<le> 20 \<longrightarrow>
         Version ` set (gantt_df fdf) = {v. Some v \<in> Release_Version ` set fdf})
   \<and> Version (gantt_group fdf u) = u
   \<and> Start (gantt_group fdf u) =
       (if {d. \<exists>r \<in> set fdf. Release_Version r = Some u \<and> Release_Date r = Some d} = {} then None
        else Some (Min {d. \<exists>r \<in> set fdf. Release_Version r = Some u \<and> Release_Date r = Some d}))
   \<and> End (gantt_group fdf u) =
       (if {t. \<exists>r \<in> set fdf. Release_Version r = Some u \<and> at_ts r = Some t} = {} then None
        else Some (Max {t. \<exists>r \<in> set fdf. Release_Version r = Some u \<and> at_ts r = Some t}))
   \<and> Description (gantt_group fdf u) =
       first_present (map Feature_Description (filter (\<lambda>r. Release_Version r = Some u) fdf))
   \<and> (map Feature_Description (filter (\<lambda>r. Release_Version r = Some u) fdf) = Some d # ds \<longrightarrow>
        Description (gantt_group fdf u) = Some d)
   \<and> Reviews (gantt_group fdf u) =
       length (filter (\<lambda>r. Release_Version r = Some u \<and> content r \<noteq> None) fdf)
   \<and> ((\<forall>r \<in> set fdf. content r \<noteq> None) \<longrightarrow>
        Reviews (gantt_group fdf u) = length (filter (\<lambda>r. Release_Version r = Some u) fdf))"
proof -
  note s = gantt_cap_structure [of fdf]
  note f = gantt_group_fields [of fdf u]
  have d: "map Feature_Description (filter (\<lambda>r. Release_Version r = Some u) fdf) = Some d # ds \<longrightarrow>
        Description (gantt_group fdf u) = Some d"
    unfolding f(4) by (auto intro: first_present_hd)
  have r: "(\<forall>r \<in> set fdf. content r \<noteq> None) \<longrightarrow>
        Reviews (gantt_group fdf u) = length (filter (\<lambda>r. Release_Version r = Some u) fdf)"
  proof
    assume "\<forall>r \<in> set fdf. content r \<noteq> None"
    then have "filter (\<lambda>r. Release_Version r = Some u \<and> content r \<noteq> None) fdf
        = filter (\<lambda>r. Release_Version r = Some u) fdf"
      by (intro filter_cong) auto
    then show "Reviews (gantt_group fdf u) = length (filter (\<lambda>r. Release_Version r = Some u) fdf)"
      by (simp only: f(5))
  qed
  from s f d r show ?thesis by (intro conjI) blast+
qed

theorem gantt_aggregate_witness:
  "Some ''v'' \<in> Release_Version ` set (sample_releases 21)
   \<and> ''v'' \<notin> Version ` set (gantt_df (sample_releases 21))
   \<and> length (gantt_df (sample_releases 21)) = 20
   \<and> gantt_group (sample_releases 21) ''vv'' \<in> set (gantt_df (sample_releases 21))
   \<and> start_key (gantt_group (sample_releases 21) ''vv'')
        \<le> start_key (gantt_group (sample_releases 21) ''v'')
   \<and> card {v. Some v \<in> Release_Version ` set (sample_releases 3)} \<le> 20
   \<and> Version ` set (gantt_df (sample_releases 3)) = {''v'', ''vv'', ''vvv''}
   \<and> gantt_df (sample_releases 3) =
       [\<lparr>Version = ''vvv'', Start = Some 1, End = Some 2, Description = Some ''Login#Search'',
          Reviews = 1\<rparr>,
        \<lparr>Version = ''vv'', Start = Some 2, End = Some 1, Description = Some ''Login#Search'',
          Reviews = 1\<rparr>,
        \<lparr>Version = ''v'', Start = Some 3, End = Some 0, Description = Some ''Login#Search'',
          Reviews = 1\<rparr>]"
proof -
  let ?S = "sample_releases 21"
  have h1: "Some ''v'' \<in> Release_Version ` set ?S" by code_simp
  have h2: "''v'' \<notin> Version ` set (gantt_df ?S)" by code_simp
  have h3: "gantt_group ?S ''vv'' \<in> set (gantt_df ?S)" by code_simp
  have h4: "length (gantt_df ?S) = 20" by code_simp
  from gantt_aggregate [of ?S] h1 h2 h3
  have r1: "start_key (gantt_group ?S ''vv'') \<le> start_key (gantt_group ?S ''v'')" by blast
  have v3: "{v. Some v \<in> Release_Version ` set (sample_releases 3)} = {''v'', ''vv'', ''vvv''}"
  proof -
    have "set (dropna (map Release_Version (sample_releases 3))) = {''v'', ''vv'', ''vvv''}"
      by code_simp
    then show ?thesis by (simp add: set_dropna)
  qed
  have h5: "card {v. Some v \<in> Release_Version ` set (sample_releases 3)} \<le> 20"
    unfolding v3 by simp
  from gantt_aggregate [of "sample_releases 3"] h5
  have r2: "Version ` set (gantt_df (sample_releases 3)) = {''v'', ''vv'', ''vvv''}"
    unfolding v3 by blast
  have r3: "gantt_df (sample_releases 3) =
       [\<lparr>Version = ''vvv'', Start = Some 1, End = Some 2, Description = Some ''Login#Search'',
          Reviews = 1\<rparr>,
        \<lparr>Version = ''vv'', Start = Some 2, End = Some 1, Description = Some ''Login#Search'',
          Reviews = 1\<rparr>,
        \<lparr>Version = ''v'', Start = Some 3, End = Some 0, Description = Some ''Login#Search'',
          Reviews = 1\<rparr>]" by code_simp
  from h1 h2 h4 h3 r1 h5 r2 r3 show ?thesis by (intro conjI)
qed

end
